theory Spec2Isabelle
  imports Main
begin

section \<open>MorningScraper: the module \<open>morningscraper/__init__.py\<close>\<close>

text \<open>
  The module searches morningstar.co.uk for an instrument, reads the candidates off the
  search-results page and resolves each candidate's detail page. Strings are byte strings
  (\<open>char list\<close>), exceptions are values of \<open>error\<close> on the left of a sum, and
  the only effects, the fetches made by the imported \<open>security\<close> module, thread an
  explicit world \<open>'w\<close>. The \<open>verbose\<close> flag only adds printing; the model is the
  module at its default \<open>verbose=False\<close>.

  Three functions of the Python standard library decide what the module does and are
  modelled here from CPython's own sources: \<open>datetime.strptime\<close> (for the one format
  \<open>%d/%m/%Y\<close>), \<open>urlsplit\<close> and the \<open>date\<close> constructor. \<open>quote\<close> and the
  \<open>security\<close> module (\<open>make_soup\<close>, \<open>SecurityPage\<close>) are parameters.
\<close>

subsection \<open>Exceptions and strings\<close>

datatype error =
    ValueError
  | AttributeError
  | IndexError
  | KeyError
  | DomainError string
    \<comment> \<open>\<open>Exception('Non morningstar.co.uk url %r' % url)\<close>, carrying the url\<close>
  | ExternalError string
    \<comment> \<open>whatever \<open>make_soup\<close> or \<open>SecurityPage\<close> raises\<close>

definition startswith :: "string \<Rightarrow> string \<Rightarrow> bool" where
  "startswith s p = (take (length p) s = p)"

definition endswith :: "string \<Rightarrow> string \<Rightarrow> bool" where
  "endswith s p = (length p \<le> length s \<and> drop (length s - length p) s = p)"

subsection \<open>Module constants and \<open>fix_url\<close>\<close>

definition SITE :: string where
  "SITE = ''morningstar.co.uk''"

definition SITE_BASE :: string where
  "SITE_BASE = ''http://www.'' @ SITE"

definition SEARCH_BASE :: string where
  "SEARCH_BASE = SITE_BASE @ ''/uk/funds/SecuritySearchResults.aspx?search=%s''"

text \<open>
  \<^verbatim>\<open>
  def fix_url(url):
      if url.startswith('/'):
          url = SITE_BASE + url
      return url
  \<close>
\<close>

definition fix_url :: "string \<Rightarrow> string" where
  "fix_url url = (if startswith url ''/'' then SITE_BASE @ url else url)"

text \<open>\<open>SEARCH_BASE % arg\<close>: the format has the single directive \<open>%s\<close>.\<close>

fun format_s :: "string \<Rightarrow> string \<Rightarrow> string" where
  "format_s (a # b # r) arg =
     (if a = CHR ''%'' \<and> b = CHR ''s'' then arg @ r else a # format_s (b # r) arg)"
| "format_s r arg = r"

subsection \<open>\<open>dmy_2_date\<close>: \<open>datetime.strptime(value, '%d/%m/%Y').date()\<close>\<close>

text \<open>
  \<open>strptime\<close> compiles the format into a regular expression, one named group per
  directive, and matches it at the start of the text with the backtracking matcher of
  \<open>re\<close>:
  \<^verbatim>\<open>
  'd': r"(?P<d>3[0-1]|[1-2]\d|0[1-9]|[1-9]| [1-9])"
  'm': r"(?P<m>1[0-2]|0[1-9]|[1-9])"
  'Y': r"(?P<Y>\d\d\d\d)"
  \<close>
  \<open>rx_match r s\<close> lists what is left of \<open>s\<close> after each way of matching \<open>r\<close> at its
  start, in the matcher's order of preference (the left alternative first), so the head
  of the list is the match \<open>re\<close> returns. \<open>\d\<close> is an ASCII digit, as it is on byte
  strings.
\<close>

datatype rx = Sym string | Seq rx rx | Alt rx rx

fun rx_match :: "rx \<Rightarrow> string \<Rightarrow> string list" where
  "rx_match (Sym cs) s = (case s of [] \<Rightarrow> [] | c # r \<Rightarrow> if c \<in> set cs then [r] else [])"
| "rx_match (Seq a b) s = concat (map (rx_match b) (rx_match a s))"
| "rx_match (Alt a b) s = rx_match a s @ rx_match b s"

definition digits :: string where "digits = ''0123456789''"

definition nonzero :: string where "nonzero = ''123456789''"

definition directive_d :: rx where
  "directive_d =
     Alt (Seq (Sym ''3'') (Sym ''01''))
    (Alt (Seq (Sym ''12'') (Sym digits))
    (Alt (Seq (Sym ''0'') (Sym nonzero))
    (Alt (Sym nonzero)
         (Seq (Sym '' '') (Sym nonzero)))))"

definition directive_m :: rx where
  "directive_m =
     Alt (Seq (Sym ''1'') (Sym ''012''))
    (Alt (Seq (Sym ''0'') (Sym nonzero))
         (Sym nonzero))"

definition directive_Y :: rx where
  "directive_Y = Seq (Sym digits) (Seq (Sym digits) (Seq (Sym digits) (Sym digits)))"

text \<open>The text a group matched: what \<open>s\<close> lost on the way to the rest \<open>r\<close>.\<close>

definition group :: "string \<Rightarrow> string \<Rightarrow> string" where
  "group s r = take (length s - length r) s"

definition regex_match :: "string \<Rightarrow> (string \<times> string \<times> string \<times> string) list" where
  "regex_match s =
     [(group s r1, group r2 r3, group r4 r5, r5).
        r1 \<leftarrow> rx_match directive_d s, r2 \<leftarrow> rx_match (Sym ''/'') r1,
        r3 \<leftarrow> rx_match directive_m r2, r4 \<leftarrow> rx_match (Sym ''/'') r3,
        r5 \<leftarrow> rx_match directive_Y r4]"

text \<open>
  \<open>int(found_dict['d'])\<close> and its siblings: \<open>int\<close> skips surrounding blanks; the groups
  hold digits after at most one blank, so it cannot raise here.
\<close>

definition isspace :: "char \<Rightarrow> bool" where
  "isspace c = (c \<in> set [CHR '' '', CHR 0x09, CHR 0x0A, CHR 0x0B, CHR 0x0C, CHR 0x0D])"

definition digit_val :: "char \<Rightarrow> nat" where
  "digit_val c = of_char c - 48"

definition py_int :: "string \<Rightarrow> nat" where
  "py_int s = foldl (\<lambda>n c. 10 * n + digit_val c) 0 (dropWhile isspace s)"

text \<open>
  The \<open>date\<close> constructor checks its fields (\<open>MINYEAR = 1\<close>, \<open>MAXYEAR = 9999\<close>) and
  raises \<open>ValueError\<close> otherwise. Index 0 of the table is a placeholder that is never
  read (\<open>-1\<close> in the source).
\<close>

record date =
  year :: nat
  month :: nat
  day :: nat

definition is_leap :: "nat \<Rightarrow> bool" where
  "is_leap y = (y mod 4 = 0 \<and> (y mod 100 \<noteq> 0 \<or> y mod 400 = 0))"

definition DAYS_IN_MONTH :: "nat list" where
  "DAYS_IN_MONTH = [0, 31, 28, 31, 30, 31, 30, 31, 31, 30, 31, 30, 31]"

definition days_in_month :: "nat \<Rightarrow> nat \<Rightarrow> nat" where
  "days_in_month y m = (if m = 2 \<and> is_leap y then 29 else DAYS_IN_MONTH ! m)"

definition new_date :: "nat \<Rightarrow> nat \<Rightarrow> nat \<Rightarrow> error + date" where
  "new_date y m d =
     (if \<not> (1 \<le> y \<and> y \<le> 9999) then Inl ValueError
      else if \<not> (1 \<le> m \<and> m \<le> 12) then Inl ValueError
      else if \<not> (1 \<le> d \<and> d \<le> days_in_month y m) then Inl ValueError
      else Inr \<lparr>year = y, month = m, day = d\<rparr>)"

text \<open>
  No match, or text left over after the match (\<open>unconverted data remains\<close>), is a
  \<open>ValueError\<close>; so is a field the \<open>date\<close> constructor refuses.
\<close>

definition dmy_2_date :: "string \<Rightarrow> error + date" where
  "dmy_2_date v =
     (case regex_match v of
        [] \<Rightarrow> Inl ValueError
      | (d, m, y, rest) # _ \<Rightarrow>
          if rest \<noteq> [] then Inl ValueError
          else new_date (py_int y) (py_int m) (py_int d))"

subsection \<open>\<open>urlsplit\<close>\<close>

text \<open>
  \<open>urlsplit\<close> as in \<open>urlparse.py\<close> of Python 2.7 and \<open>urllib/parse.py\<close> of Python 3.6,
  the interpreters the module's version switch targets, on byte strings. \<open>get_url\<close> reads
  only \<open>netloc\<close>. Later releases of \<open>urllib.parse\<close> differ on some urls: they strip
  leading blanks and control characters, delete tab, carriage return and line feed,
  require a scheme to begin with a letter, drop the shortcut for \<open>http\<close> and the
  port-number exception, and check the host between brackets. The general statements
  about \<open>get_url\<close> below speak of the result \<open>urlsplit\<close> returns, whatever computes
  it, and on the urls evaluated below every release returns the same result.
\<close>

record SplitResult =
  scheme :: string
  netloc :: string
  path :: string
  query :: string
  fragment :: string

definition scheme_chars :: string where
  "scheme_chars = ''abcdefghijklmnopqrstuvwxyzABCDEFGHIJKLMNOPQRSTUVWXYZ0123456789+-.''"

text \<open>\<open>s.find(c, start)\<close>, with \<open>None\<close> for \<open>-1\<close>.\<close>

definition str_find :: "string \<Rightarrow> char \<Rightarrow> nat \<Rightarrow> nat option" where
  "str_find s c start =
     (if c \<in> set (drop start s)
      then Some (start + length (takeWhile (\<lambda>x. x \<noteq> c) (drop start s)))
      else None)"

definition lower :: "string \<Rightarrow> string" where
  "lower s = map (\<lambda>c. if c \<in> set ''ABCDEFGHIJKLMNOPQRSTUVWXYZ''
                        then char_of (of_char c + (32::nat)) else c) s"

text \<open>
  \<^verbatim>\<open>
  def _splitnetloc(url, start=0):
      delim = len(url)
      for c in '/?#':
          wdelim = url.find(c, start)
          if wdelim >= 0:
              delim = min(delim, wdelim)
      return url[start:delim], url[delim:]
  \<close>
\<close>

definition splitnetloc :: "string \<Rightarrow> nat \<Rightarrow> string \<times> string" where
  "splitnetloc url start =
     (let delim = foldl (\<lambda>delim c. case str_find url c start of
                                      None \<Rightarrow> delim
                                    | Some wdelim \<Rightarrow> min delim wdelim)
                        (length url) ''/?#''
      in (take (delim - start) (drop start url), drop delim url))"

text \<open>\<open>s.split(c, 1)\<close> where \<open>c\<close> occurs in \<open>s\<close>, and \<open>(s, '')\<close> where it does not.\<close>

definition split_once :: "string \<Rightarrow> char \<Rightarrow> string \<times> string" where
  "split_once s c =
     (if c \<in> set s
      then (takeWhile (\<lambda>x. x \<noteq> c) s, drop 1 (dropWhile (\<lambda>x. x \<noteq> c) s))
      else (s, ''''))"

text \<open>
  The scheme: the text before the first colon, when it is \<open>http\<close> or consists of scheme
  characters and what follows is not a port number.
\<close>

definition split_scheme :: "string \<Rightarrow> string \<times> string" where
  "split_scheme url =
     (case str_find url CHR '':'' 0 of
        None \<Rightarrow> ('''', url)
      | Some i \<Rightarrow>
          if i > 0 then
            if take i url = ''http'' then (lower (take i url), drop (i + 1) url)
            else if list_all (\<lambda>c. c \<in> set scheme_chars) (take i url) then
              (let rest = drop (i + 1) url in
               if rest = [] \<or> list_ex (\<lambda>c. c \<notin> set ''0123456789'') rest
               then (lower (take i url), rest)
               else ('''', url))
            else ('''', url)
          else ('''', url))"

text \<open>The network location follows \<open>//\<close>; unbalanced brackets raise \<open>ValueError\<close>.\<close>

definition split_netloc :: "string \<Rightarrow> error + string \<times> string" where
  "split_netloc url =
     (if take 2 url = ''//'' then
        (case splitnetloc url 2 of
           (netloc', url') \<Rightarrow>
             if (CHR ''['' \<in> set netloc' \<and> CHR '']'' \<notin> set netloc') \<or>
                (CHR '']'' \<in> set netloc' \<and> CHR ''['' \<notin> set netloc')
             then Inl ValueError
             else Inr (netloc', url'))
      else Inr ('''', url))"

definition urlsplit :: "string \<Rightarrow> error + SplitResult" where
  "urlsplit url =
     (case split_scheme url of
        (scheme', url1) \<Rightarrow>
          (case split_netloc url1 of
             Inl e \<Rightarrow> Inl e
           | Inr (netloc', url2) \<Rightarrow>
               (case split_once url2 CHR ''#'' of
                  (url3, fragment') \<Rightarrow>
                    (case split_once url3 CHR ''?'' of
                       (url4, query') \<Rightarrow>
                         Inr \<lparr>scheme = scheme', netloc = netloc', path = url4,
                               query = query', fragment = fragment'\<rparr>))))"

subsection \<open>The parsed page\<close>

text \<open>
  What \<open>make_soup\<close> returns: a tree of tags and strings. An attribute value is a string,
  or a list of strings for a multi-valued attribute such as \<open>class\<close>.
\<close>

datatype attr_value = Str string | Lst "string list"

datatype node = NavigableString string | Tag string "(string \<times> attr_value) list" "node list"

text \<open>The tags and strings below a tag, in document order.\<close>

fun descendants :: "node \<Rightarrow> node list" where
  "descendants (NavigableString s) = []"
| "descendants (Tag name attrs contents) = concat (map (\<lambda>c. c # descendants c) contents)"

text \<open>\<open>tag.text\<close>: the strings below the tag, concatenated.\<close>

fun get_text :: "node \<Rightarrow> string" where
  "get_text (NavigableString s) = s"
| "get_text (Tag name attrs contents) = concat (map get_text contents)"

text \<open>\<open>tag.get(key)\<close>.\<close>

fun get :: "node \<Rightarrow> string \<Rightarrow> attr_value option" where
  "get (Tag name attrs contents) key = map_of attrs key"
| "get (NavigableString s) key = None"

fun join :: "string \<Rightarrow> string list \<Rightarrow> string" where
  "join sep [] = []"
| "join sep [x] = x"
| "join sep (x # y # ys) = x @ sep @ join sep (y # ys)"

text \<open>
  A keyword argument of \<open>find_all\<close> matches a string value that equals it, and a list
  value one of whose items equals it, or whose items joined by blanks do.
\<close>

fun attr_matches :: "attr_value option \<Rightarrow> string \<Rightarrow> bool" where
  "attr_matches None match_against = False"
| "attr_matches (Some (Str v)) match_against = (v = match_against)"
| "attr_matches (Some (Lst vs)) match_against =
     (match_against \<in> set vs \<or> join '' '' vs = match_against)"

fun matches :: "string \<Rightarrow> (string \<times> string) list \<Rightarrow> node \<Rightarrow> bool" where
  "matches name kwargs (NavigableString s) = False"
| "matches name kwargs (Tag n attrs contents) =
     (n = name \<and> list_all (\<lambda>(k, v). attr_matches (map_of attrs k) v) kwargs)"

definition find_all :: "node \<Rightarrow> string \<Rightarrow> (string \<times> string) list \<Rightarrow> node list" where
  "find_all tag name kwargs = filter (matches name kwargs) (descendants tag)"

text \<open>\<open>tag.td\<close>, \<open>tag.a\<close>: the first tag of that name below \<open>tag\<close>, or \<open>None\<close>.\<close>

definition find_tag :: "node \<Rightarrow> string \<Rightarrow> node option" where
  "find_tag tag name = (case find_all tag name [] of [] \<Rightarrow> None | r # _ \<Rightarrow> Some r)"

subsection \<open>\<open>search\<close>\<close>

text \<open>A result is a \<open>dict\<close> from strings to strings, in the order its literal is written.\<close>

type_synonym item = "(string \<times> string) list"

text \<open>
  The dictionary for one row of the stock table. A missing cell or link is an
  \<open>AttributeError\<close> (\<open>None.text\<close>, \<open>None.a\<close>, \<open>None.startswith\<close>), a missing ticker or
  currency cell an \<open>IndexError\<close>.
  \<^verbatim>\<open>
  results.append({
      'name': stock.td.text,
      'url': fix_url(stock.td.a.get('href')),
      'type': 'Stock',
      'ticker': stock.find_all('td', class_='searchTicker')[0].text,
      'currency': stock.find_all('td', class_='searchCurrency')[0].text,
  })
  \<close>
\<close>

definition stock_item :: "node \<Rightarrow> error + item" where
  "stock_item stock =
     (case find_tag stock ''td'' of
        None \<Rightarrow> Inl AttributeError
      | Some td \<Rightarrow>
          (case find_tag td ''a'' of
             None \<Rightarrow> Inl AttributeError
           | Some a \<Rightarrow>
               (case get a ''href'' of
                  Some (Str href) \<Rightarrow>
                    (case find_all stock ''td'' [(''class'', ''searchTicker'')] of
                       [] \<Rightarrow> Inl IndexError
                     | ticker # _ \<Rightarrow>
                         (case find_all stock ''td'' [(''class'', ''searchCurrency'')] of
                            [] \<Rightarrow> Inl IndexError
                          | currency # _ \<Rightarrow>
                              Inr [(''name'', get_text td),
                                   (''url'', fix_url href),
                                   (''type'', ''Stock''),
                                   (''ticker'', get_text ticker),
                                   (''currency'', get_text currency)]))
                | _ \<Rightarrow> Inl AttributeError)))"

text \<open>
  The dictionary for one row of the fund or ETF table.
  \<^verbatim>\<open>
  data = fund.find_all('td')
  results.append({
      'name': data[0].text,
      'url': fix_url(data[0].a.get('href')),
      'type': instrument_type,
      'ISIN': data[1].text,
  })
  \<close>
\<close>

definition fund_item :: "string \<Rightarrow> node \<Rightarrow> error + item" where
  "fund_item instrument_type fund =
     (case find_all fund ''td'' [] of
        [] \<Rightarrow> Inl IndexError
      | d0 # ds \<Rightarrow>
          (case find_tag d0 ''a'' of
             None \<Rightarrow> Inl AttributeError
           | Some a \<Rightarrow>
               (case get a ''href'' of
                  Some (Str href) \<Rightarrow>
                    (case ds of
                       [] \<Rightarrow> Inl IndexError
                     | d1 # _ \<Rightarrow>
                         Inr [(''name'', get_text d0),
                              (''url'', fix_url href),
                              (''type'', instrument_type),
                              (''ISIN'', get_text d1)])
                | _ \<Rightarrow> Inl AttributeError)))"

text \<open>The two \<open>for\<close> loops over rows, appending to \<open>results\<close>.\<close>

fun stock_loop :: "node list \<Rightarrow> item list \<Rightarrow> error + item list" where
  "stock_loop [] results = Inr results"
| "stock_loop (stock # stocks) results =
     (case stock_item stock of
        Inl e \<Rightarrow> Inl e
      | Inr it \<Rightarrow> stock_loop stocks (results @ [it]))"

fun fund_loop :: "string \<Rightarrow> node list \<Rightarrow> item list \<Rightarrow> error + item list" where
  "fund_loop instrument_type [] results = Inr results"
| "fund_loop instrument_type (fund # funds) results =
     (case fund_item instrument_type fund of
        Inl e \<Rightarrow> Inl e
      | Inr it \<Rightarrow> fund_loop instrument_type funds (results @ [it]))"

text \<open>
  \<^verbatim>\<open>
  for instrument_type in ["fund", "etf"]:
      funds = parsed_html.find_all(
          'table', id='ctl00_MainContent_{}Table'.format(instrument_type))
      if funds:
          funds = funds[0].find_all('tr')[1:]
          for fund in funds: ...
          break
  \<close>
\<close>

fun instrument_loop :: "node \<Rightarrow> string list \<Rightarrow> item list \<Rightarrow> error + item list" where
  "instrument_loop parsed_html [] results = Inr results"
| "instrument_loop parsed_html (instrument_type # types) results =
     (case find_all parsed_html ''table''
             [(''id'', ''ctl00_MainContent_'' @ instrument_type @ ''Table'')] of
        [] \<Rightarrow> instrument_loop parsed_html types results
      | funds # _ \<Rightarrow> fund_loop instrument_type (tl (find_all funds ''tr'' [])) results)"

text \<open>\<open>search\<close> after the page has been fetched and parsed.\<close>

definition search_page :: "node \<Rightarrow> error + item list" where
  "search_page parsed_html =
     (case (case find_all parsed_html ''table'' [(''id'', ''ctl00_MainContent_stockTable'')] of
              [] \<Rightarrow> Inr []
            | stocks # _ \<Rightarrow> stock_loop (tl (find_all stocks ''tr'' [])) []) of
        Inl e \<Rightarrow> Inl e
      | Inr results \<Rightarrow> instrument_loop parsed_html [''fund'', ''etf''] results)"

text \<open>
  What \<open>page.get_data()\<close> returns: \<open>None\<close> or a dictionary; \<open>if data:\<close> is its truth
  value.
\<close>

datatype 'v pyresult = PyNone | PyDict "(string \<times> 'v) list"

fun truthy :: "'v pyresult \<Rightarrow> bool" where
  "truthy PyNone = False"
| "truthy (PyDict kvs) = (kvs \<noteq> [])"

text \<open>
  The imported functions that are not modelled: \<open>quote\<close> of \<open>urllib\<close>, and
  \<open>make_soup\<close>, \<open>SecurityPage.from_url\<close> and \<open>page.get_data\<close> of the \<open>security\<close>
  module. The last three fetch or read pages: they take and return the world.
\<close>

record ('w, 'p, 'v) collaborators =
  quote :: "string \<Rightarrow> string"
  make_soup :: "string \<Rightarrow> 'w \<Rightarrow> (error + node) \<times> 'w"
  from_url :: "string \<Rightarrow> 'w \<Rightarrow> (error + 'p) \<times> 'w"
  page_get_data :: "'p \<Rightarrow> 'w \<Rightarrow> (error + 'v pyresult) \<times> 'w"

definition search :: "('w, 'p, 'v) collaborators \<Rightarrow> string \<Rightarrow> 'w \<Rightarrow> (error + item list) \<times> 'w" where
  "search ext ref w =
     (case make_soup ext (format_s SEARCH_BASE (quote ext ref)) w of
        (Inl e, w') \<Rightarrow> (Inl e, w')
      | (Inr parsed_html, w') \<Rightarrow> (search_page parsed_html, w'))"

subsection \<open>\<open>get_url\<close> and \<open>get_data\<close>\<close>

text \<open>\<open>SecurityPage.from_url(url).get_data()\<close>.\<close>

definition security_page ::
  "('w, 'p, 'v) collaborators \<Rightarrow> string \<Rightarrow> 'w \<Rightarrow> (error + 'v pyresult) \<times> 'w" where
  "security_page ext url w =
     (case from_url ext url w of
        (Inl e, w') \<Rightarrow> (Inl e, w')
      | (Inr page, w') \<Rightarrow> page_get_data ext page w')"

text \<open>
  \<^verbatim>\<open>
  if not urlsplit(url).netloc.endswith(SITE):
      raise Exception('Non morningstar.co.uk url %r' % url)
  page = SecurityPage.from_url(url)
  result = page.get_data()
  return result
  \<close>
\<close>

definition get_url ::
  "('w, 'p, 'v) collaborators \<Rightarrow> string \<Rightarrow> 'w \<Rightarrow> (error + 'v pyresult) \<times> 'w" where
  "get_url ext url w =
     (case urlsplit url of
        Inl e \<Rightarrow> (Inl e, w)
      | Inr parts \<Rightarrow>
          if \<not> endswith (netloc parts) SITE then (Inl (DomainError url), w)
          else security_page ext url w)"

text \<open>\<open>item['url']\<close>.\<close>

definition getitem :: "item \<Rightarrow> string \<Rightarrow> error + string" where
  "getitem it key = (case map_of it key of None \<Rightarrow> Inl KeyError | Some v \<Rightarrow> Inr v)"

text \<open>
  \<^verbatim>\<open>
  output = []
  for item in results:
      data = get_url(item['url'], verbose=verbose)
      if data:
          output.append(data)
  return output
  \<close>
\<close>

fun get_data_loop ::
  "('w, 'p, 'v) collaborators \<Rightarrow> item list \<Rightarrow> 'v pyresult list \<Rightarrow> 'w
     \<Rightarrow> (error + 'v pyresult list) \<times> 'w" where
  "get_data_loop ext [] output w = (Inr output, w)"
| "get_data_loop ext (it # results) output w =
     (case getitem it ''url'' of
        Inl e \<Rightarrow> (Inl e, w)
      | Inr url \<Rightarrow>
          (case get_url ext url w of
             (Inl e, w') \<Rightarrow> (Inl e, w')
           | (Inr data, w') \<Rightarrow>
               get_data_loop ext results (if truthy data then output @ [data] else output) w'))"

definition get_data ::
  "('w, 'p, 'v) collaborators \<Rightarrow> string \<Rightarrow> 'w \<Rightarrow> (error + 'v pyresult list) \<times> 'w" where
  "get_data ext ref w =
     (case search ext ref w of
        (Inl e, w') \<Rightarrow> (Inl e, w')
      | (Inr results, w') \<Rightarrow> get_data_loop ext results [] w')"

section \<open>Vocabulary of the specification\<close>

subsection \<open>Dates\<close>

text \<open>The texts a regular expression matches.\<close>

fun lang :: "rx \<Rightarrow> string set" where
  "lang (Sym cs) = {[c] | c. c \<in> set cs}"
| "lang (Seq a b) = {x @ y | x y. x \<in> lang a \<and> y \<in> lang b}"
| "lang (Alt a b) = lang a \<union> lang b"

text \<open>
  A day field as \<open>%d\<close> accepts it: one digit from 1 to 9, alone or after a blank, or
  two digits from 01 to 31. A month field: one digit from 1 to 9, or two digits from 01
  to 12. A year field: four digits.
\<close>

definition day_text :: "string \<Rightarrow> bool" where
  "day_text g =
     ((\<exists>b \<in> set nonzero. g = [b] \<or> g = [CHR '' '', b]) \<or>
      (length g = 2 \<and> set g \<subseteq> set digits \<and> 1 \<le> py_int g \<and> py_int g \<le> 31))"

definition month_text :: "string \<Rightarrow> bool" where
  "month_text g =
     ((\<exists>b \<in> set nonzero. g = [b]) \<or>
      (length g = 2 \<and> set g \<subseteq> set digits \<and> 1 \<le> py_int g \<and> py_int g \<le> 12))"

definition year_text :: "string \<Rightarrow> bool" where
  "year_text g = (length g = 4 \<and> set g \<subseteq> set digits)"

text \<open>A date the \<open>date\<close> type can hold.\<close>

definition possible_date :: "nat \<Rightarrow> nat \<Rightarrow> nat \<Rightarrow> bool" where
  "possible_date y m d =
     (1 \<le> y \<and> y \<le> 9999 \<and> 1 \<le> m \<and> m \<le> 12 \<and> 1 \<le> d \<and> d \<le> days_in_month y m)"

text \<open>
  The format in the specification's words: two-digit day, two-digit month and
  four-digit year, separated by slashes.
\<close>

definition dd_mm_yyyy :: "string \<Rightarrow> bool" where
  "dd_mm_yyyy s =
     (length s = 10 \<and> set (take 2 s) \<subseteq> set digits \<and> s ! 2 = CHR ''/'' \<and>
      set (take 2 (drop 3 s)) \<subseteq> set digits \<and> s ! 5 = CHR ''/'' \<and>
      set (drop 6 s) \<subseteq> set digits)"

subsection \<open>Urls and pages\<close>

text \<open>An absolute url: \<open>urlsplit\<close> finds a scheme and a network location.\<close>

definition is_absolute :: "string \<Rightarrow> bool" where
  "is_absolute url =
     (case urlsplit url of Inl e \<Rightarrow> False | Inr r \<Rightarrow> scheme r \<noteq> [] \<and> netloc r \<noteq> [])"

text \<open>Applying a function that may raise to each element, stopping at the first error.\<close>

fun mapE :: "('a \<Rightarrow> error + 'b) \<Rightarrow> 'a list \<Rightarrow> error + 'b list" where
  "mapE f [] = Inr []"
| "mapE f (x # xs) =
     (case f x of
        Inl e \<Rightarrow> Inl e
      | Inr y \<Rightarrow> (case mapE f xs of Inl e \<Rightarrow> Inl e | Inr ys \<Rightarrow> Inr (y # ys)))"

definition stockTable :: string where "stockTable = ''ctl00_MainContent_stockTable''"

definition fundTable :: string where "fundTable = ''ctl00_MainContent_fundTable''"

definition etfTable :: string where "etfTable = ''ctl00_MainContent_etfTable''"

text \<open>
  Whether the page has a table of that id, and the rows of the first such table after
  its header row (none when the table is absent).
\<close>

definition table_present :: "node \<Rightarrow> string \<Rightarrow> bool" where
  "table_present page ident = (find_all page ''table'' [(''id'', ident)] \<noteq> [])"

definition table_rows :: "node \<Rightarrow> string \<Rightarrow> node list" where
  "table_rows page ident =
     (case find_all page ''table'' [(''id'', ident)] of
        [] \<Rightarrow> []
      | t # _ \<Rightarrow> tl (find_all t ''tr'' []))"

text \<open>The link target in the first cell of a row.\<close>

definition row_href :: "node \<Rightarrow> string option" where
  "row_href row =
     (case find_tag row ''td'' of
        None \<Rightarrow> None
      | Some td \<Rightarrow>
          (case find_tag td ''a'' of
             None \<Rightarrow> None
           | Some a \<Rightarrow> (case get a ''href'' of Some (Str href) \<Rightarrow> Some href | _ \<Rightarrow> None)))"

definition url_of :: "item \<Rightarrow> string" where
  "url_of c = (case map_of c ''url'' of Some u \<Rightarrow> u | None \<Rightarrow> [])"

definition type_of :: "item \<Rightarrow> string" where
  "type_of c = (case map_of c ''type'' of Some t \<Rightarrow> t | None \<Rightarrow> [])"

text \<open>
  Resolving urls one after the other, in order, keeping every result (absences
  included) and stopping at the first exception.
\<close>

fun resolve_each ::
  "('w, 'p, 'v) collaborators \<Rightarrow> string list \<Rightarrow> 'w \<Rightarrow> (error + 'v pyresult list) \<times> 'w" where
  "resolve_each ext [] w = (Inr [], w)"
| "resolve_each ext (url # urls) w =
     (case get_url ext url w of
        (Inl e, w') \<Rightarrow> (Inl e, w')
      | (Inr data, w') \<Rightarrow>
          (case resolve_each ext urls w' of
             (Inl e, w'') \<Rightarrow> (Inl e, w'')
           | (Inr ds, w'') \<Rightarrow> (Inr (data # ds), w'')))"

subsection \<open>Example pages and collaborators\<close>

definition results_table :: "string \<Rightarrow> node list \<Rightarrow> node" where
  "results_table ident rows =
     Tag ''table'' [(''id'', Str ident)]
       (Tag ''tr'' [] [Tag ''th'' [] [NavigableString ''Name'']] # rows)"

definition stock_row :: "string \<Rightarrow> string \<Rightarrow> string \<Rightarrow> string \<Rightarrow> node" where
  "stock_row name href ticker currency =
     Tag ''tr'' []
       [Tag ''td'' [] [Tag ''a'' [(''href'', Str href)] [NavigableString name]],
        Tag ''td'' [(''class'', Lst [''searchTicker''])] [NavigableString ticker],
        Tag ''td'' [(''class'', Lst [''searchCurrency''])] [NavigableString currency]]"

definition fund_row :: "string \<Rightarrow> string \<Rightarrow> string \<Rightarrow> node" where
  "fund_row name href isin =
     Tag ''tr'' []
       [Tag ''td'' [] [Tag ''a'' [(''href'', Str href)] [NavigableString name]],
        Tag ''td'' [] [NavigableString isin]]"

text \<open>The ETF table first in the document, then the fund table, then the stock table.\<close>

definition example_page :: node where
  "example_page =
     Tag ''[document]'' []
       [results_table ''ctl00_MainContent_etfTable'' [fund_row ''ETF One'' ''/uk/etf/e1'' ''IE0002''],
        results_table ''ctl00_MainContent_fundTable'' [fund_row ''Fund One'' ''/uk/funds/f1'' ''GB0001''],
        results_table ''ctl00_MainContent_stockTable'' [stock_row ''Acme Corp'' ''/stock/1'' ''ACM'' ''USD'']]"

definition relative_page :: node where
  "relative_page =
     Tag ''[document]'' []
       [results_table ''ctl00_MainContent_stockTable'' [stock_row ''Acme Corp'' ''detail.aspx'' ''ACM'' ''USD'']]"

definition fund_page :: node where
  "fund_page =
     Tag ''[document]'' []
       [results_table ''ctl00_MainContent_fundTable'' [fund_row ''Fund One'' ''/uk/funds/f1'' ''GB0001'']]"

definition three_page :: node where
  "three_page =
     Tag ''[document]'' []
       [results_table ''ctl00_MainContent_stockTable''
          [stock_row ''One'' ''/stock/1'' ''ONE'' ''USD'',
           stock_row ''Two'' ''/stock/2'' ''TWO'' ''USD'',
           stock_row ''Three'' ''/stock/3'' ''THR'' ''USD'']]"

text \<open>
  Collaborators whose world is the list of urls fetched so far; the detail page of
  \<open>/stock/2\<close> carries no data.
\<close>

definition example_ext :: "(string list, string, string) collaborators" where
  "example_ext =
     \<lparr>quote = (\<lambda>s. s),
      make_soup = (\<lambda>url w. (Inr three_page, w @ [url])),
      from_url = (\<lambda>url w. (Inr url, w @ [url])),
      page_get_data = (\<lambda>page w.
        (Inr (if page = ''http://www.morningstar.co.uk/stock/2'' then PyNone
              else PyDict [(''url'', page)]), w))\<rparr>"

text \<open>The candidates \<open>search\<close> reads off \<open>example_page\<close>.\<close>

definition acme_item :: item where
  "acme_item =
     [(''name'', ''Acme Corp''), (''url'', ''http://www.morningstar.co.uk/stock/1''),
      (''type'', ''Stock''), (''ticker'', ''ACM''), (''currency'', ''USD'')]"

definition fund_one_item :: item where
  "fund_one_item =
     [(''name'', ''Fund One''), (''url'', ''http://www.morningstar.co.uk/uk/funds/f1''),
      (''type'', ''fund''), (''ISIN'', ''GB0001'')]"

definition stock_1_parts :: SplitResult where
  "stock_1_parts =
     \<lparr>scheme = ''http'', netloc = ''www.morningstar.co.uk'', path = ''/stock/1'', query = [],
      fragment = []\<rparr>"

definition relative_parts :: SplitResult where
  "relative_parts =
     \<lparr>scheme = [], netloc = [], path = ''/stock/1'', query = [], fragment = []\<rparr>"

section \<open>Lemmas\<close>

subsection \<open>The regular expression of \<open>%d/%m/%Y\<close>\<close>

lemma rx_match_set: "set (rx_match rx s) = {r. \<exists>g \<in> lang rx. s = g @ r}"
proof (induction rx arbitrary: s)
  case (Sym cs)
  then show ?case by (cases s) auto
next
  case (Seq a b)
  have "set (rx_match (Seq a b) s) = (\<Union>r1 \<in> set (rx_match a s). set (rx_match b r1))"
    by simp
  also have "\<dots> = {r. \<exists>x \<in> lang a. \<exists>y \<in> lang b. s = (x @ y) @ r}"
    unfolding Seq.IH by auto
  also have "\<dots> = {r. \<exists>g \<in> lang (Seq a b). s = g @ r}"
    by fastforce
  finally show ?case .
next
  case (Alt a b)
  then show ?case by auto
qed

lemma rx_match_iff: "r \<in> set (rx_match rx s) \<longleftrightarrow> (\<exists>g \<in> lang rx. s = g @ r)"
  by (simp add: rx_match_set)

lemma rx_match_slash: "r2 \<in> set (rx_match (Sym ''/'') r1) \<longleftrightarrow> r1 = CHR ''/'' # r2"
  by (cases r1) auto

lemma group_append: "group (g @ r) r = g"
  by (simp add: group_def)

lemma two_chars: "length g = 2 \<longleftrightarrow> (\<exists>a b. g = [a, b])"
  by (cases g; cases "tl g") auto

lemma py_int_two: "a \<in> set digits \<Longrightarrow> py_int [a, b] = 10 * digit_val a + digit_val b"
  by (auto simp: py_int_def digits_def isspace_def)

lemma lang_Sym: "g \<in> lang (Sym cs) \<longleftrightarrow> (\<exists>a \<in> set cs. g = [a])"
  by auto

lemma lang_Sym2: "g \<in> lang (Seq (Sym xs) (Sym ys)) \<longleftrightarrow> (\<exists>a \<in> set xs. \<exists>b \<in> set ys. g = [a, b])"
proof
  assume "g \<in> lang (Seq (Sym xs) (Sym ys))"
  then obtain x y where "g = x @ y" "x \<in> lang (Sym xs)" "y \<in> lang (Sym ys)"
    by auto
  then show "\<exists>a \<in> set xs. \<exists>b \<in> set ys. g = [a, b]"
    by auto
next
  assume "\<exists>a \<in> set xs. \<exists>b \<in> set ys. g = [a, b]"
  then obtain a b where ab: "a \<in> set xs" "b \<in> set ys" "g = [a, b]"
    by blast
  then have "g = [a] @ [b]" "[a] \<in> lang (Sym xs)" "[b] \<in> lang (Sym ys)"
    by auto
  then show "g \<in> lang (Seq (Sym xs) (Sym ys))"
    unfolding lang.simps(2) by blast
qed

lemma digit_val_less: "c \<in> set digits \<Longrightarrow> digit_val c < 10"
  by (auto simp: digits_def digit_val_def)

lemma digit_is:
  assumes "c \<in> set digits"
  shows "c = CHR ''0'' \<longleftrightarrow> digit_val c = 0" "c = CHR ''1'' \<longleftrightarrow> digit_val c = 1"
    "c = CHR ''2'' \<longleftrightarrow> digit_val c = 2" "c = CHR ''3'' \<longleftrightarrow> digit_val c = 3"
  using assms by (auto simp: digits_def digit_val_def)

lemma nonzero_digit: "c \<in> set nonzero \<longleftrightarrow> c \<in> set digits \<and> digit_val c \<noteq> 0"
  by (auto simp: digits_def nonzero_def digit_val_def)

lemma small_digits:
  "CHR ''0'' \<in> set digits" "CHR ''1'' \<in> set digits" "CHR ''2'' \<in> set digits"
  "CHR ''3'' \<in> set digits"
  by (simp_all add: digits_def)

lemma slash_not_digit: "CHR ''/'' \<notin> set digits" "CHR ''/'' \<notin> set nonzero"
  by (simp_all add: digits_def nonzero_def)

lemma two_digits:
  "(\<exists>a \<in> set digits. \<exists>b \<in> set digits. g = [a, b] \<and> P (digit_val a) (digit_val b)) \<longleftrightarrow>
   (length g = 2 \<and> set g \<subseteq> set digits \<and> P (py_int g div 10) (py_int g mod 10))"
proof -
  have "py_int [a, b] div 10 = digit_val a \<and> py_int [a, b] mod 10 = digit_val b"
    if "a \<in> set digits" "b \<in> set digits" for a b
    using that digit_val_less [of b] by (simp add: py_int_two)
  then show ?thesis
    unfolding two_chars by fastforce
qed

lemma two_digit_value:
  "(\<exists>a \<in> set digits. \<exists>b \<in> set digits. g = [a, b] \<and>
      lo \<le> 10 * digit_val a + digit_val b \<and> 10 * digit_val a + digit_val b \<le> hi) \<longleftrightarrow>
   (length g = 2 \<and> set g \<subseteq> set digits \<and> lo \<le> py_int g \<and> py_int g \<le> hi)"
  using two_digits [of g "\<lambda>x y. lo \<le> 10 * x + y \<and> 10 * x + y \<le> hi"]
  by simp

lemma lang_d_digits:
  "(\<exists>a \<in> set digits. \<exists>b \<in> set digits. g = [a, b] \<and>
      ((a = CHR ''3'' \<and> (b = CHR ''0'' \<or> b = CHR ''1'')) \<or> a = CHR ''1'' \<or> a = CHR ''2'' \<or>
       (a = CHR ''0'' \<and> b \<in> set nonzero))) \<longleftrightarrow>
   (\<exists>a \<in> set digits. \<exists>b \<in> set digits. g = [a, b] \<and>
      1 \<le> 10 * digit_val a + digit_val b \<and> 10 * digit_val a + digit_val b \<le> 31)"
proof -
  have "((a = CHR ''3'' \<and> (b = CHR ''0'' \<or> b = CHR ''1'')) \<or> a = CHR ''1'' \<or> a = CHR ''2'' \<or>
          (a = CHR ''0'' \<and> b \<in> set nonzero)) \<longleftrightarrow>
        (1 \<le> 10 * digit_val a + digit_val b \<and> 10 * digit_val a + digit_val b \<le> 31)"
    if "a \<in> set digits" "b \<in> set digits" for a b
    using that digit_val_less [of a] digit_val_less [of b]
    by (simp add: digit_is nonzero_digit) arith
  then show ?thesis by blast
qed

lemma lang_d_alternatives:
  "g \<in> lang directive_d \<longleftrightarrow>
     (\<exists>a \<in> set nonzero. g = [a] \<or> g = [CHR '' '', a]) \<or>
     (\<exists>a \<in> set digits. \<exists>b \<in> set digits. g = [a, b] \<and>
        ((a = CHR ''3'' \<and> (b = CHR ''0'' \<or> b = CHR ''1'')) \<or> a = CHR ''1'' \<or> a = CHR ''2'' \<or>
         (a = CHR ''0'' \<and> b \<in> set nonzero)))"
proof -
  have L: "g \<in> lang directive_d \<longleftrightarrow>
     (\<exists>a \<in> set ''3''. \<exists>b \<in> set ''01''. g = [a, b]) \<or>
     (\<exists>a \<in> set ''12''. \<exists>b \<in> set digits. g = [a, b]) \<or>
     (\<exists>a \<in> set ''0''. \<exists>b \<in> set nonzero. g = [a, b]) \<or>
     (\<exists>a \<in> set nonzero. g = [a]) \<or>
     (\<exists>a \<in> set '' ''. \<exists>b \<in> set nonzero. g = [a, b])"
    unfolding directive_d_def lang.simps(3) Un_iff lang_Sym2 lang_Sym
    by (rule refl)
  have A1: "(\<exists>a \<in> set ''3''. \<exists>b \<in> set ''01''. g = [a, b]) \<longleftrightarrow>
      (\<exists>a \<in> set digits. \<exists>b \<in> set digits. g = [a, b] \<and> a = CHR ''3'' \<and> (b = CHR ''0'' \<or> b = CHR ''1''))"
    using small_digits by auto
  have A2: "(\<exists>a \<in> set ''12''. \<exists>b \<in> set digits. g = [a, b]) \<longleftrightarrow>
      (\<exists>a \<in> set digits. \<exists>b \<in> set digits. g = [a, b] \<and> (a = CHR ''1'' \<or> a = CHR ''2''))"
    using small_digits by auto
  have A3: "(\<exists>a \<in> set ''0''. \<exists>b \<in> set nonzero. g = [a, b]) \<longleftrightarrow>
      (\<exists>a \<in> set digits. \<exists>b \<in> set digits. g = [a, b] \<and> a = CHR ''0'' \<and> b \<in> set nonzero)"
    using small_digits nonzero_digit by auto
  have A5: "(\<exists>a \<in> set '' ''. \<exists>b \<in> set nonzero. g = [a, b]) \<longleftrightarrow>
      (\<exists>b \<in> set nonzero. g = [CHR '' '', b])"
    by simp
  show ?thesis
    unfolding L A1 A2 A3 A5 by meson
qed

lemma lang_d: "g \<in> lang directive_d \<longleftrightarrow> day_text g"
  unfolding lang_d_alternatives lang_d_digits two_digit_value day_text_def
  by (rule refl)

lemma lang_m_digits:
  "(\<exists>a \<in> set digits. \<exists>b \<in> set digits. g = [a, b] \<and>
      ((a = CHR ''1'' \<and> (b = CHR ''0'' \<or> b = CHR ''1'' \<or> b = CHR ''2'')) \<or>
       (a = CHR ''0'' \<and> b \<in> set nonzero))) \<longleftrightarrow>
   (\<exists>a \<in> set digits. \<exists>b \<in> set digits. g = [a, b] \<and>
      1 \<le> 10 * digit_val a + digit_val b \<and> 10 * digit_val a + digit_val b \<le> 12)"
proof -
  have "((a = CHR ''1'' \<and> (b = CHR ''0'' \<or> b = CHR ''1'' \<or> b = CHR ''2'')) \<or>
          (a = CHR ''0'' \<and> b \<in> set nonzero)) \<longleftrightarrow>
        (1 \<le> 10 * digit_val a + digit_val b \<and> 10 * digit_val a + digit_val b \<le> 12)"
    if "a \<in> set digits" "b \<in> set digits" for a b
    using that digit_val_less [of a] digit_val_less [of b]
    by (simp add: digit_is nonzero_digit) arith
  then show ?thesis by blast
qed

lemma lang_m_alternatives:
  "g \<in> lang directive_m \<longleftrightarrow>
     (\<exists>a \<in> set nonzero. g = [a]) \<or>
     (\<exists>a \<in> set digits. \<exists>b \<in> set digits. g = [a, b] \<and>
        ((a = CHR ''1'' \<and> (b = CHR ''0'' \<or> b = CHR ''1'' \<or> b = CHR ''2'')) \<or>
         (a = CHR ''0'' \<and> b \<in> set nonzero)))"
proof -
  have L: "g \<in> lang directive_m \<longleftrightarrow>
     (\<exists>a \<in> set ''1''. \<exists>b \<in> set ''012''. g = [a, b]) \<or>
     (\<exists>a \<in> set ''0''. \<exists>b \<in> set nonzero. g = [a, b]) \<or>
     (\<exists>a \<in> set nonzero. g = [a])"
    unfolding directive_m_def lang.simps(3) Un_iff lang_Sym2 lang_Sym
    by (rule refl)
  have A1: "(\<exists>a \<in> set ''1''. \<exists>b \<in> set ''012''. g = [a, b]) \<longleftrightarrow>
      (\<exists>a \<in> set digits. \<exists>b \<in> set digits. g = [a, b] \<and> a = CHR ''1'' \<and>
         (b = CHR ''0'' \<or> b = CHR ''1'' \<or> b = CHR ''2''))"
    using small_digits by auto
  have A2: "(\<exists>a \<in> set ''0''. \<exists>b \<in> set nonzero. g = [a, b]) \<longleftrightarrow>
      (\<exists>a \<in> set digits. \<exists>b \<in> set digits. g = [a, b] \<and> a = CHR ''0'' \<and> b \<in> set nonzero)"
    using small_digits nonzero_digit by auto
  show ?thesis
    unfolding L A1 A2 by meson
qed

lemma lang_m: "g \<in> lang directive_m \<longleftrightarrow> month_text g"
  unfolding lang_m_alternatives lang_m_digits two_digit_value month_text_def
  by (rule refl)

lemma lang_Y: "g \<in> lang directive_Y \<longleftrightarrow> year_text g"
proof
  assume "g \<in> lang directive_Y"
  then obtain a b c d where "g = [a, b, c, d]" "a \<in> set digits" "b \<in> set digits"
    "c \<in> set digits" "d \<in> set digits"
    unfolding directive_Y_def by auto
  then show "year_text g" by (simp add: year_text_def)
next
  assume "year_text g"
  then obtain a b c d where g: "g = [a, b, c, d]"
    by (cases g; cases "tl g"; cases "tl (tl g)"; cases "tl (tl (tl g))") (auto simp: year_text_def)
  with \<open>year_text g\<close> have "[a] \<in> lang (Sym digits)" "[b] \<in> lang (Sym digits)"
    "[c] \<in> lang (Sym digits)" "[d] \<in> lang (Sym digits)"
    by (simp_all add: year_text_def)
  then have "[a] @ [b] @ [c] @ [d] \<in> lang directive_Y"
    unfolding directive_Y_def lang.simps(2) by blast
  then show "g \<in> lang directive_Y" by (simp add: g)
qed

lemma regex_match_intro:
  "r1 \<in> set (rx_match directive_d s) \<Longrightarrow> r2 \<in> set (rx_match (Sym ''/'') r1) \<Longrightarrow>
   r3 \<in> set (rx_match directive_m r2) \<Longrightarrow> r4 \<in> set (rx_match (Sym ''/'') r3) \<Longrightarrow>
   r5 \<in> set (rx_match directive_Y r4) \<Longrightarrow>
   (group s r1, group r2 r3, group r4 r5, r5) \<in> set (regex_match s)"
  unfolding regex_match_def by (simp del: rx_match.simps) blast

lemma regex_match_iff:
  "(d, m, y, rest) \<in> set (regex_match s) \<longleftrightarrow>
     s = d @ ''/'' @ m @ ''/'' @ y @ rest \<and> day_text d \<and> month_text m \<and> year_text y"
proof
  assume "(d, m, y, rest) \<in> set (regex_match s)"
  then obtain r1 r2 r3 r4 where r:
    "r1 \<in> set (rx_match directive_d s)" "r2 \<in> set (rx_match (Sym ''/'') r1)"
    "r3 \<in> set (rx_match directive_m r2)" "r4 \<in> set (rx_match (Sym ''/'') r3)"
    "rest \<in> set (rx_match directive_Y r4)"
    and g: "d = group s r1" "m = group r2 r3" "y = group r4 rest"
    unfolding regex_match_def by auto
  from r(1) obtain g1 where g1: "day_text g1" "s = g1 @ r1"
    by (auto simp: rx_match_iff lang_d)
  from r(3) obtain g2 where g2: "month_text g2" "r2 = g2 @ r3"
    by (auto simp: rx_match_iff lang_m)
  from r(5) obtain g3 where g3: "year_text g3" "r4 = g3 @ rest"
    by (auto simp: rx_match_iff lang_Y)
  from r(2) r(4) have s: "r1 = CHR ''/'' # r2" "r3 = CHR ''/'' # r4"
    by (simp_all add: rx_match_slash)
  have "d = g1" "m = g2" "y = g3"
    using g g1(2) g2(2) g3(2) by (simp_all add: group_append)
  with g1 g2 g3 s
  show "s = d @ ''/'' @ m @ ''/'' @ y @ rest \<and> day_text d \<and> month_text m \<and> year_text y"
    by simp
next
  assume a: "s = d @ ''/'' @ m @ ''/'' @ y @ rest \<and> day_text d \<and> month_text m \<and> year_text y"
  define r4 where "r4 = y @ rest"
  define r3 where "r3 = CHR ''/'' # r4"
  define r2 where "r2 = m @ r3"
  define r1 where "r1 = CHR ''/'' # r2"
  have s: "s = d @ r1"
    using a by (simp add: r1_def r2_def r3_def r4_def)
  have 1: "r1 \<in> set (rx_match directive_d s)"
    using a s by (auto simp: rx_match_iff lang_d)
  have 2: "r2 \<in> set (rx_match (Sym ''/'') r1)"
    by (simp only: rx_match_slash r1_def)
  have 3: "r3 \<in> set (rx_match directive_m r2)"
    using a r2_def by (auto simp: rx_match_iff lang_m)
  have 4: "r4 \<in> set (rx_match (Sym ''/'') r3)"
    by (simp only: rx_match_slash r3_def)
  have 5: "rest \<in> set (rx_match directive_Y r4)"
    using a r4_def by (auto simp: rx_match_iff lang_Y)
  have "d = group s r1" "m = group r2 r3" "y = group r4 rest"
    by (simp_all add: s r2_def r4_def group_append)
  with regex_match_intro [OF 1 2 3 4 5] show "(d, m, y, rest) \<in> set (regex_match s)"
    by simp
qed

lemma no_slash_day: "day_text d \<Longrightarrow> CHR ''/'' \<notin> set d"
  unfolding day_text_def using slash_not_digit by auto

lemma no_slash_month: "month_text d \<Longrightarrow> CHR ''/'' \<notin> set d"
  unfolding month_text_def using slash_not_digit by auto

lemma split_unique:
  "c \<notin> set d \<Longrightarrow> c \<notin> set d' \<Longrightarrow> d @ c # x = d' @ c # x' \<Longrightarrow> d = d' \<and> x = x'"
proof (induction d arbitrary: d')
  case Nil
  then show ?case by (cases d') auto
next
  case (Cons a d)
  then show ?case by (cases d') auto
qed

lemma regex_match_unique:
  assumes "p \<in> set (regex_match s)" "q \<in> set (regex_match s)"
  shows "p = q"
proof -
  obtain d m y r where p: "p = (d, m, y, r)" by (cases p) auto
  obtain d' m' y' r' where q: "q = (d', m', y', r')" by (cases q) auto
  from assms(1) have P: "s = d @ CHR ''/'' # m @ CHR ''/'' # y @ r" "day_text d" "month_text m" "year_text y"
    unfolding p regex_match_iff by simp_all
  from assms(2) have Q: "s = d' @ CHR ''/'' # m' @ CHR ''/'' # y' @ r'" "day_text d'" "month_text m'" "year_text y'"
    unfolding q regex_match_iff by simp_all
  have 1: "d = d' \<and> m @ CHR ''/'' # y @ r = m' @ CHR ''/'' # y' @ r'"
    using split_unique [OF no_slash_day [OF P(2)] no_slash_day [OF Q(2)]] P(1) Q(1) by metis
  then have 2: "m = m' \<and> y @ r = y' @ r'"
    using split_unique [OF no_slash_month [OF P(3)] no_slash_month [OF Q(3)]] by metis
  moreover have "length y = length y'"
    using P(4) Q(4) by (simp add: year_text_def)
  ultimately have "y = y' \<and> r = r'" by simp
  with 1 2 show ?thesis by (simp add: p q)
qed

subsection \<open>\<open>dmy_2_date\<close>\<close>

lemma new_date_iff:
  "new_date y m d = Inr dt \<longleftrightarrow> possible_date y m d \<and> dt = \<lparr>year = y, month = m, day = d\<rparr>"
  by (auto simp: new_date_def possible_date_def)

lemma dmy_2_date_iff:
  "dmy_2_date s = Inr dt \<longleftrightarrow>
     (\<exists>d m y. s = d @ ''/'' @ m @ ''/'' @ y \<and> day_text d \<and> month_text m \<and> year_text y \<and>
        possible_date (py_int y) (py_int m) (py_int d) \<and>
        dt = \<lparr>year = py_int y, month = py_int m, day = py_int d\<rparr>)"
proof (cases "regex_match s")
  case Nil
  have "\<not> (s = d @ ''/'' @ m @ ''/'' @ y \<and> day_text d \<and> month_text m \<and> year_text y)" for d m y
    using regex_match_iff [of d m y "[]" s] Nil by simp
  moreover have "dmy_2_date s \<noteq> Inr dt"
    by (simp add: dmy_2_date_def Nil)
  ultimately show ?thesis by blast
next
  case (Cons p ps)
  obtain d0 m0 y0 r0 where p: "p = (d0, m0, y0, r0)" by (cases p) auto
  have mem: "(d0, m0, y0, r0) \<in> set (regex_match s)" by (simp add: Cons p)
  have val: "dmy_2_date s = (if r0 \<noteq> [] then Inl ValueError else new_date (py_int y0) (py_int m0) (py_int d0))"
    by (simp add: dmy_2_date_def Cons p)
  show ?thesis
  proof
    assume L: "dmy_2_date s = Inr dt"
    then have r0: "r0 = []" and nd: "new_date (py_int y0) (py_int m0) (py_int d0) = Inr dt"
      unfolding val by (simp_all split: if_splits)
    from mem have "s = d0 @ ''/'' @ m0 @ ''/'' @ y0 \<and> day_text d0 \<and> month_text m0 \<and> year_text y0"
      unfolding regex_match_iff r0 by simp
    with nd show "\<exists>d m y. s = d @ ''/'' @ m @ ''/'' @ y \<and> day_text d \<and> month_text m \<and> year_text y \<and>
        possible_date (py_int y) (py_int m) (py_int d) \<and>
        dt = \<lparr>year = py_int y, month = py_int m, day = py_int d\<rparr>"
      unfolding new_date_iff by blast
  next
    assume "\<exists>d m y. s = d @ ''/'' @ m @ ''/'' @ y \<and> day_text d \<and> month_text m \<and> year_text y \<and>
        possible_date (py_int y) (py_int m) (py_int d) \<and>
        dt = \<lparr>year = py_int y, month = py_int m, day = py_int d\<rparr>"
    then obtain d m y where R: "s = d @ ''/'' @ m @ ''/'' @ y" "day_text d" "month_text m" "year_text y"
      "possible_date (py_int y) (py_int m) (py_int d)"
      "dt = \<lparr>year = py_int y, month = py_int m, day = py_int d\<rparr>"
      by blast
    then have "(d, m, y, []) \<in> set (regex_match s)"
      unfolding regex_match_iff by simp
    with mem have "(d0, m0, y0, r0) = (d, m, y, [])"
      by (rule regex_match_unique)
    with R(5,6) show "dmy_2_date s = Inr dt"
      unfolding val by (simp add: new_date_iff)
  qed
qed

lemma dmy_2_date_error: "dmy_2_date s = Inl e \<Longrightarrow> e = ValueError"
  by (auto simp: dmy_2_date_def new_date_def split: list.splits if_splits)

lemma days_in_month_le: "1 \<le> m \<Longrightarrow> m \<le> 12 \<Longrightarrow> days_in_month y m \<le> 31"
proof -
  assume "1 \<le> m" "m \<le> 12"
  then have "m < length DAYS_IN_MONTH"
    by (simp add: DAYS_IN_MONTH_def)
  then have "DAYS_IN_MONTH ! m \<in> set DAYS_IN_MONTH"
    by (rule nth_mem)
  then have "DAYS_IN_MONTH ! m \<le> 31"
    by (auto simp: DAYS_IN_MONTH_def)
  then show ?thesis
    by (simp add: days_in_month_def)
qed

lemma dd_mm_yyyy_split:
  assumes "dd_mm_yyyy s"
  shows "s = take 2 s @ ''/'' @ take 2 (drop 3 s) @ ''/'' @ drop 6 s"
proof -
  from assms have len: "length s = 10" and s2: "s ! 2 = CHR ''/''" and s5: "s ! 5 = CHR ''/''"
    by (simp_all add: dd_mm_yyyy_def)
  have "drop 2 s = s ! 2 # drop 3 s"
    using len Cons_nth_drop_Suc [of 2 s] by simp
  moreover have "drop 5 s = s ! 5 # drop 6 s"
    using len Cons_nth_drop_Suc [of 5 s] by simp
  moreover have "drop 3 s = take 2 (drop 3 s) @ drop 5 s"
    using append_take_drop_id [of 2 "drop 3 s"] by simp
  moreover have "s = take 2 s @ drop 2 s"
    by simp
  ultimately show ?thesis
    using s2 s5 by simp
qed

lemma dmy_2_date_strict:
  assumes "dd_mm_yyyy s"
    and "possible_date (py_int (drop 6 s)) (py_int (take 2 (drop 3 s))) (py_int (take 2 s))"
  shows "dmy_2_date s =
    Inr \<lparr>year = py_int (drop 6 s), month = py_int (take 2 (drop 3 s)), day = py_int (take 2 s)\<rparr>"
proof -
  let ?d = "take 2 s" and ?m = "take 2 (drop 3 s)" and ?y = "drop 6 s"
  from assms(1) have len: "length s = 10" and dig: "set ?d \<subseteq> set digits"
    "set ?m \<subseteq> set digits" "set ?y \<subseteq> set digits"
    by (simp_all add: dd_mm_yyyy_def)
  from assms(2) have rng: "1 \<le> py_int ?m" "py_int ?m \<le> 12" "1 \<le> py_int ?d"
    "py_int ?d \<le> days_in_month (py_int ?y) (py_int ?m)"
    by (simp_all add: possible_date_def)
  then have "py_int ?d \<le> 31"
    using days_in_month_le [of "py_int ?m" "py_int ?y"] by simp
  with rng dig len have "day_text ?d" "month_text ?m" "year_text ?y"
    by (simp_all add: day_text_def month_text_def year_text_def)
  with dd_mm_yyyy_split [OF assms(1)] assms(2) show ?thesis
    unfolding dmy_2_date_iff by blast
qed

lemma dmy_2_date_total: "dmy_2_date s = Inl ValueError \<or> (\<exists>dt. dmy_2_date s = Inr dt)"
  using dmy_2_date_error [of s] by (cases "dmy_2_date s") auto

lemmas date_defs = dmy_2_date_def regex_match_def directive_d_def directive_m_def directive_Y_def
  digits_def nonzero_def group_def py_int_def isspace_def digit_val_def new_date_def
  days_in_month_def DAYS_IN_MONTH_def is_leap_def

subsection \<open>\<open>fix_url\<close> and \<open>urlsplit\<close>\<close>

lemma startswith_slash: "startswith url ''/'' \<longleftrightarrow> (\<exists>r. url = CHR ''/'' # r)"
  by (cases url) (auto simp: startswith_def)

lemma SITE_BASE_text: "SITE_BASE = ''http://www.morningstar.co.uk''"
  by (simp add: SITE_BASE_def SITE_def)

lemma split_scheme_site:
  "split_scheme (''http://www.morningstar.co.uk/'' @ r) = (''http'', ''//www.morningstar.co.uk/'' @ r)"
  by (simp add: split_scheme_def str_find_def lower_def)

lemma splitnetloc_site:
  "fst (splitnetloc (''//www.morningstar.co.uk/'' @ r) 2) = ''www.morningstar.co.uk''"
  by (simp add: splitnetloc_def str_find_def)

lemma urlsplit_site:
  "\<exists>parts. urlsplit (SITE_BASE @ CHR ''/'' # r) = Inr parts \<and> scheme parts = ''http'' \<and>
     netloc parts = ''www.morningstar.co.uk''"
proof -
  obtain n u where nu: "splitnetloc (''//www.morningstar.co.uk/'' @ r) 2 = (n, u)"
    by (cases "splitnetloc (''//www.morningstar.co.uk/'' @ r) 2") auto
  with splitnetloc_site [of r] have n: "n = ''www.morningstar.co.uk''"
    by simp
  have "split_netloc (''//www.morningstar.co.uk/'' @ r) = Inr (''www.morningstar.co.uk'', u)"
    using nu unfolding n by (simp add: split_netloc_def)
  then show ?thesis
    using split_scheme_site [of r]
    by (simp add: urlsplit_def SITE_BASE_text split: prod.splits)
qed

lemma is_absolute_site: "is_absolute (SITE_BASE @ CHR ''/'' # r)"
  using urlsplit_site [of r] by (auto simp: is_absolute_def)

lemma is_absolute_fix_url:
  "is_absolute (fix_url href) \<longleftrightarrow> startswith href ''/'' \<or> is_absolute href"
proof (cases "startswith href ''/''")
  case True
  then obtain r where "href = CHR ''/'' # r"
    by (auto simp: startswith_slash)
  with True show ?thesis
    by (simp add: fix_url_def is_absolute_site)
next
  case False
  then show ?thesis by (simp add: fix_url_def)
qed

lemmas url_defs = urlsplit_def split_scheme_def split_netloc_def splitnetloc_def str_find_def
  split_once_def lower_def scheme_chars_def

subsection \<open>\<open>search\<close>\<close>

lemma stock_loop_mapE:
  "stock_loop rows results =
     (case mapE stock_item rows of Inl e \<Rightarrow> Inl e | Inr ss \<Rightarrow> Inr (results @ ss))"
  by (induction rows arbitrary: results) (auto split: sum.splits)

lemma fund_loop_mapE:
  "fund_loop ty rows results =
     (case mapE (fund_item ty) rows of Inl e \<Rightarrow> Inl e | Inr fs \<Rightarrow> Inr (results @ fs))"
  by (induction rows arbitrary: results) (auto split: sum.splits)

lemma mapE_Inr_iff: "mapE f xs = Inr ys \<longleftrightarrow> list_all2 (\<lambda>x y. f x = Inr y) xs ys"
proof (induction xs arbitrary: ys)
  case Nil
  then show ?case by auto
next
  case (Cons x xs)
  show ?case
  proof (cases ys)
    case Nil
    then show ?thesis by (auto split: sum.splits)
  next
    case (Cons y zs)
    have "mapE f (x # xs) = Inr (y # zs) \<longleftrightarrow> f x = Inr y \<and> mapE f xs = Inr zs"
      by (auto split: sum.splits)
    then show ?thesis
      unfolding Cons by (simp add: Cons.IH)
  qed
qed

lemma search_page_eq:
  "search_page page =
     (case mapE stock_item (table_rows page stockTable) of
        Inl e \<Rightarrow> Inl e
      | Inr ss \<Rightarrow>
          if table_present page fundTable then
            (case mapE (fund_item ''fund'') (table_rows page fundTable) of
               Inl e \<Rightarrow> Inl e | Inr fs \<Rightarrow> Inr (ss @ fs))
          else if table_present page etfTable then
            (case mapE (fund_item ''etf'') (table_rows page etfTable) of
               Inl e \<Rightarrow> Inl e | Inr fs \<Rightarrow> Inr (ss @ fs))
          else Inr ss)"
  by (simp add: search_page_def table_rows_def table_present_def stockTable_def fundTable_def
      etfTable_def stock_loop_mapE fund_loop_mapE split: list.splits sum.splits)

lemma stock_item_fields:
  "stock_item row = Inr c \<Longrightarrow>
     map_of c ''type'' = Some ''Stock'' \<and>
     (\<exists>href. row_href row = Some href \<and> map_of c ''url'' = Some (fix_url href))"
  by (auto simp: stock_item_def row_href_def split: option.splits attr_value.splits list.splits)

lemma fund_item_fields:
  "fund_item ty row = Inr c \<Longrightarrow>
     map_of c ''type'' = Some ty \<and>
     (\<exists>href. row_href row = Some href \<and> map_of c ''url'' = Some (fix_url href))"
  by (auto simp: fund_item_def row_href_def find_tag_def
      split: option.splits attr_value.splits list.splits)

lemma list_all2_rhs:
  "list_all2 P xs ys \<Longrightarrow> y \<in> set ys \<Longrightarrow> \<exists>x \<in> set xs. P x y"
  by (induction rule: list_all2_induct) auto

lemma search_page_decomp:
  assumes "search_page page = Inr cs"
  shows "\<exists>ss fs. cs = ss @ fs \<and>
    list_all2 (\<lambda>row c. stock_item row = Inr c) (table_rows page stockTable) ss \<and>
    (list_all2 (\<lambda>row c. fund_item ''fund'' row = Inr c) (table_rows page fundTable) fs \<or>
     list_all2 (\<lambda>row c. fund_item ''etf'' row = Inr c) (table_rows page etfTable) fs)"
proof -
  obtain ss where ss: "mapE stock_item (table_rows page stockTable) = Inr ss"
    using assms unfolding search_page_eq by (auto split: sum.splits)
  note eq = assms [unfolded search_page_eq ss, simplified]
  have S: "list_all2 (\<lambda>row c. stock_item row = Inr c) (table_rows page stockTable) ss"
    using ss by (simp add: mapE_Inr_iff)
  consider (fund) "table_present page fundTable"
    | (etf) "\<not> table_present page fundTable" "table_present page etfTable"
    | (none) "\<not> table_present page fundTable" "\<not> table_present page etfTable"
    by blast
  then show ?thesis
  proof cases
    case fund
    with eq obtain fs where "mapE (fund_item ''fund'') (table_rows page fundTable) = Inr fs"
      "cs = ss @ fs"
      by (auto split: sum.splits)
    with S show ?thesis by (auto simp: mapE_Inr_iff)
  next
    case etf
    with eq obtain fs where "mapE (fund_item ''etf'') (table_rows page etfTable) = Inr fs"
      "cs = ss @ fs"
      by (auto split: sum.splits)
    with S show ?thesis by (auto simp: mapE_Inr_iff)
  next
    case none
    with eq have "cs = ss @ []" by simp
    moreover have "table_rows page fundTable = []"
      using none(1) by (simp add: table_rows_def table_present_def)
    ultimately show ?thesis using S by (metis list_all2_Nil)
  qed
qed

lemma search_page_rows:
  assumes "search_page page = Inr cs" "c \<in> set cs"
  shows "(\<exists>row \<in> set (table_rows page stockTable). stock_item row = Inr c) \<or>
         (\<exists>row \<in> set (table_rows page fundTable). fund_item ''fund'' row = Inr c) \<or>
         (\<exists>row \<in> set (table_rows page etfTable). fund_item ''etf'' row = Inr c)"
proof -
  from search_page_decomp [OF assms(1)] obtain ss fs where d: "cs = ss @ fs"
    "list_all2 (\<lambda>row c. stock_item row = Inr c) (table_rows page stockTable) ss"
    "list_all2 (\<lambda>row c. fund_item ''fund'' row = Inr c) (table_rows page fundTable) fs \<or>
     list_all2 (\<lambda>row c. fund_item ''etf'' row = Inr c) (table_rows page etfTable) fs"
    by blast
  from assms(2) d(1) consider "c \<in> set ss" | "c \<in> set fs" by auto
  then show ?thesis
  proof cases
    case 1
    from list_all2_rhs [OF d(2) 1] show ?thesis by blast
  next
    case 2
    from d(3) show ?thesis
    proof
      assume "list_all2 (\<lambda>row c. fund_item ''fund'' row = Inr c) (table_rows page fundTable) fs"
      from list_all2_rhs [OF this 2] show ?thesis by blast
    next
      assume "list_all2 (\<lambda>row c. fund_item ''etf'' row = Inr c) (table_rows page etfTable) fs"
      from list_all2_rhs [OF this 2] show ?thesis by blast
    qed
  qed
qed

lemma search_page_has_url:
  assumes "search_page page = Inr cs" "c \<in> set cs"
  shows "\<exists>href. map_of c ''url'' = Some (fix_url href)"
  using search_page_rows [OF assms] stock_item_fields fund_item_fields by blast

text \<open>
  Each candidate stands at the position of its own row, and its url is \<open>fix_url\<close> of the
  link target in the first cell of that row; the url is absolute exactly when the target
  begins with a slash or is absolute already.
\<close>

lemma search_page_urls:
  assumes "search_page page = Inr cs"
  shows "\<exists>rows.
    (rows = table_rows page stockTable @ table_rows page fundTable \<or>
     rows = table_rows page stockTable @ table_rows page etfTable) \<and>
    list_all2 (\<lambda>row c. \<exists>href. row_href row = Some href \<and>
        map_of c ''url'' = Some (fix_url href) \<and>
        (is_absolute (fix_url href) \<longleftrightarrow> startswith href ''/'' \<or> is_absolute href)) rows cs"
proof -
  let ?R = "\<lambda>row c. \<exists>href. row_href row = Some href \<and>
        map_of c ''url'' = Some (fix_url href) \<and>
        (is_absolute (fix_url href) \<longleftrightarrow> startswith href ''/'' \<or> is_absolute href)"
  from search_page_decomp [OF assms] obtain ss fs where d: "cs = ss @ fs"
    "list_all2 (\<lambda>row c. stock_item row = Inr c) (table_rows page stockTable) ss"
    "list_all2 (\<lambda>row c. fund_item ''fund'' row = Inr c) (table_rows page fundTable) fs \<or>
     list_all2 (\<lambda>row c. fund_item ''etf'' row = Inr c) (table_rows page etfTable) fs"
    by blast
  have st: "?R row c" if "stock_item row = Inr c" for row c
    using stock_item_fields [OF that] is_absolute_fix_url by blast
  have fu: "?R row c" if "fund_item ty row = Inr c" for ty row c
    using fund_item_fields [OF that] is_absolute_fix_url by blast
  have S: "list_all2 ?R (table_rows page stockTable) ss"
    using d(2) st by (rule list_all2_mono)
  from d(3) show ?thesis
  proof
    assume "list_all2 (\<lambda>row c. fund_item ''fund'' row = Inr c) (table_rows page fundTable) fs"
    then have "list_all2 ?R (table_rows page fundTable) fs"
      using fu by (rule list_all2_mono)
    with S have "list_all2 ?R (table_rows page stockTable @ table_rows page fundTable) (ss @ fs)"
      by (rule list_all2_appendI)
    then show ?thesis unfolding d(1) by blast
  next
    assume "list_all2 (\<lambda>row c. fund_item ''etf'' row = Inr c) (table_rows page etfTable) fs"
    then have "list_all2 ?R (table_rows page etfTable) fs"
      using fu by (rule list_all2_mono)
    with S have "list_all2 ?R (table_rows page stockTable @ table_rows page etfTable) (ss @ fs)"
      by (rule list_all2_appendI)
    then show ?thesis unfolding d(1) by blast
  qed
qed

lemmas page_defs = results_table_def stock_row_def fund_row_def search_page_def find_all_def
  find_tag_def stock_item_def fund_item_def fix_url_def startswith_def SITE_BASE_def SITE_def
  table_present_def table_rows_def stockTable_def fundTable_def etfTable_def

subsection \<open>\<open>get_data\<close>\<close>

lemma get_data_loop_eq:
  assumes "\<forall>c \<in> set items. map_of c ''url'' \<noteq> None"
  shows "get_data_loop ext items out w =
     (case resolve_each ext (map url_of items) w of
        (Inl e, w') \<Rightarrow> (Inl e, w')
      | (Inr ds, w') \<Rightarrow> (Inr (out @ filter truthy ds), w'))"
  using assms
proof (induction items arbitrary: out w)
  case Nil
  then show ?case by simp
next
  case (Cons it items)
  then obtain u where u: "map_of it ''url'' = Some u" by auto
  have IH: "get_data_loop ext items out' w' =
     (case resolve_each ext (map url_of items) w' of
        (Inl e, w'') \<Rightarrow> (Inl e, w'')
      | (Inr ds, w'') \<Rightarrow> (Inr (out' @ filter truthy ds), w''))" for out' w'
    using Cons by simp
  have it: "getitem it ''url'' = Inr u" "url_of it = u"
    by (simp_all add: getitem_def url_of_def u)
  obtain r w' where g: "get_url ext u w = (r, w')"
    by (cases "get_url ext u w") auto
  show ?case
  proof (cases r)
    case (Inl e)
    with g it show ?thesis by simp
  next
    case (Inr data)
    with g it show ?thesis
      by (simp add: IH split: prod.splits sum.splits)
  qed
qed

lemma stock_item_type: "stock_item row = Inr c \<Longrightarrow> type_of c = ''Stock''"
  using stock_item_fields [of row c] by (simp add: type_of_def)

lemma fund_item_type: "fund_item ty row = Inr c \<Longrightarrow> type_of c = ty"
  using fund_item_fields [of ty row c] by (simp add: type_of_def)

lemma list_all2_types:
  assumes "list_all2 (\<lambda>row c. f row = Inr c) rows cs"
    and "\<And>row c. f row = Inr c \<Longrightarrow> type_of c = ty"
    and "c \<in> set cs"
  shows "type_of c = ty"
proof -
  from list_all2_rhs [OF assms(1) assms(3)] obtain row where "f row = Inr c"
    by blast
  then show ?thesis
    by (rule assms(2))
qed

lemma search_example_page: "search_page example_page = Inr [acme_item, fund_one_item]"
  by (simp add: example_page_def acme_item_def fund_one_item_def page_defs)

lemma example_page_tables:
  "table_present example_page fundTable" "table_rows example_page fundTable \<noteq> []"
  "table_present example_page etfTable" "table_rows example_page etfTable \<noteq> []"
  by (simp_all add: example_page_def page_defs)

lemma urlsplit_stock_1: "urlsplit ''http://www.morningstar.co.uk/stock/1'' = Inr stock_1_parts"
  by (simp add: url_defs stock_1_parts_def)

lemma urlsplit_relative: "urlsplit ''/stock/1'' = Inr relative_parts"
  by (simp add: url_defs relative_parts_def)

section \<open>The claims\<close>

subsection \<open>\<open>fix_url\<close>\<close>

text \<open>
  Claim C5. \<open>fix_url url\<close> is the site base \<open>http://www.morningstar.co.uk\<close> followed by
  \<open>url\<close> when \<open>url\<close> begins with a slash, and \<open>url\<close> itself otherwise; the two examples of
  the specification evaluate as stated. \<open>fix_url\<close> is a function from strings to strings:
  it takes and returns no world, so it has no effect.
\<close>

theorem fix_url_spec:
  "fix_url url =
     (if url \<noteq> [] \<and> hd url = CHR ''/'' then ''http://www.morningstar.co.uk'' @ url else url)
   \<and> fix_url ''/uk/funds/x'' = ''http://www.morningstar.co.uk/uk/funds/x''
   \<and> fix_url ''http://other.com/x'' = ''http://other.com/x''"
proof -
  have "startswith url ''/'' \<longleftrightarrow> url \<noteq> [] \<and> hd url = CHR ''/''"
    by (cases url) (auto simp: startswith_def)
  then have "fix_url url =
     (if url \<noteq> [] \<and> hd url = CHR ''/'' then ''http://www.morningstar.co.uk'' @ url else url)"
    by (simp add: fix_url_def SITE_BASE_text)
  moreover have "fix_url ''/uk/funds/x'' = ''http://www.morningstar.co.uk/uk/funds/x''"
    by (simp add: fix_url_def startswith_def SITE_BASE_text)
  moreover have "fix_url ''http://other.com/x'' = ''http://other.com/x''"
    by (simp add: fix_url_def startswith_def)
  ultimately show ?thesis by blast
qed

theorem fix_url_spec_witness:
  "fix_url ''/stock/1'' = ''http://www.morningstar.co.uk/stock/1''"
  using fix_url_spec [of "''/stock/1''"] by simp

text \<open>
  Claim C9. \<open>fix_url\<close> is idempotent: the site base begins with \<open>h\<close>, not with a slash, so
  a normalised url is returned unchanged by a second call.
\<close>

theorem fix_url_idempotent: "fix_url (fix_url url) = fix_url url"
  by (simp add: fix_url_def startswith_def SITE_BASE_text)

theorem fix_url_idempotent_witness:
  "fix_url (fix_url ''/uk/funds/x'') = ''http://www.morningstar.co.uk/uk/funds/x''"
  using fix_url_idempotent [of "''/uk/funds/x''"]
  by (simp add: fix_url_def startswith_def SITE_BASE_text)

subsection \<open>\<open>dmy_2_date\<close>\<close>

text \<open>
  Claim C8, as stated, fails: \<open>5/3/2022\<close> is not of the form two-digit day, two-digit
  month, four-digit year, and \<open>dmy_2_date\<close> does not fail on it but returns 5 March 2022,
  because \<open>%d\<close> and \<open>%m\<close> of \<open>strptime\<close> accept a single digit.
\<close>

theorem dmy_2_date_single_digits:
  "\<not> dd_mm_yyyy ''5/3/2022'' \<and>
   dmy_2_date ''5/3/2022'' = Inr \<lparr>year = 2022, month = 3, day = 5\<rparr>"
  by (simp add: date_defs dd_mm_yyyy_def)

text \<open>
  Claim C8, amended. A text of the form two-digit day, slash, two-digit month, slash,
  four-digit year that names a possible date parses to that date. \<open>dmy_2_date\<close> returns
  a date exactly for the texts made of a day field, a slash, a month field, a slash and
  a four-digit year that name a possible date, where a day or month field may also be a
  single digit (the day also a blank and a digit); on every other text it raises
  \<open>ValueError\<close>. The examples of the specification evaluate as stated. Texts are
  byte strings and digits are the ASCII digits.
\<close>

theorem dmy_2_date_amended:
  "(dd_mm_yyyy s \<and>
      possible_date (py_int (drop 6 s)) (py_int (take 2 (drop 3 s))) (py_int (take 2 s)) \<longrightarrow>
      dmy_2_date s =
        Inr \<lparr>year = py_int (drop 6 s), month = py_int (take 2 (drop 3 s)),
             day = py_int (take 2 s)\<rparr>)
   \<and> (dmy_2_date s = Inr dt \<longleftrightarrow>
        (\<exists>d m y. s = d @ ''/'' @ m @ ''/'' @ y \<and> day_text d \<and> month_text m \<and> year_text y \<and>
           possible_date (py_int y) (py_int m) (py_int d) \<and>
           dt = \<lparr>year = py_int y, month = py_int m, day = py_int d\<rparr>))
   \<and> (dmy_2_date s = Inl ValueError \<or> (\<exists>dt'. dmy_2_date s = Inr dt'))
   \<and> dmy_2_date ''05/03/2022'' = Inr \<lparr>year = 2022, month = 3, day = 5\<rparr>
   \<and> dmy_2_date ''2022-03-05'' = Inl ValueError
   \<and> dmy_2_date ''31/02/2023'' = Inl ValueError"
proof -
  have "dd_mm_yyyy s \<and>
      possible_date (py_int (drop 6 s)) (py_int (take 2 (drop 3 s))) (py_int (take 2 s)) \<longrightarrow>
      dmy_2_date s =
        Inr \<lparr>year = py_int (drop 6 s), month = py_int (take 2 (drop 3 s)),
             day = py_int (take 2 s)\<rparr>"
    using dmy_2_date_strict [of s] by blast
  moreover note dmy_2_date_iff [of s dt] dmy_2_date_total [of s]
  moreover have "dmy_2_date ''05/03/2022'' = Inr \<lparr>year = 2022, month = 3, day = 5\<rparr>"
    by (simp add: date_defs)
  moreover have "dmy_2_date ''2022-03-05'' = Inl ValueError"
    by (simp add: date_defs)
  moreover have "dmy_2_date ''31/02/2023'' = Inl ValueError"
    by (simp add: date_defs)
  ultimately show ?thesis by blast
qed

theorem dmy_2_date_amended_witness:
  "dd_mm_yyyy ''25/12/2023'' \<and> possible_date 2023 12 25 \<and>
   dmy_2_date ''25/12/2023'' = Inr \<lparr>year = 2023, month = 12, day = 25\<rparr>"
proof -
  have h: "dd_mm_yyyy ''25/12/2023'' \<and> possible_date 2023 12 25"
    by (simp add: dd_mm_yyyy_def possible_date_def date_defs)
  have v: "py_int (drop 6 ''25/12/2023'') = 2023" "py_int (take 2 (drop 3 ''25/12/2023'')) = 12"
    "py_int (take 2 ''25/12/2023'') = 25"
    by (simp_all add: date_defs)
  from dmy_2_date_amended [of "''25/12/2023''"] h show ?thesis
    unfolding v by blast
qed

subsection \<open>\<open>search\<close>\<close>

text \<open>
  Claim C2. On a page whose fund table and ETF table are both present with rows after
  the header, \<open>search\<close> is determined by the rows of the stock table and of the fund
  table alone: it returns the stock candidates followed by one candidate per fund row,
  or the first exception a row raises. No returned candidate is of type \<open>etf\<close>; every
  one is a stock or a fund candidate, and a fund candidate is among them. The loop over
  the families stops at the first family whose table is present, so the rows of the ETF
  table are never read here.
\<close>

theorem search_fund_before_etf:
  assumes "table_present page fundTable" and "table_rows page fundTable \<noteq> []"
    and "table_present page etfTable" and "table_rows page etfTable \<noteq> []"
  shows "search_page page =
      (case mapE stock_item (table_rows page stockTable) of
         Inl e \<Rightarrow> Inl e
       | Inr ss \<Rightarrow>
           (case mapE (fund_item ''fund'') (table_rows page fundTable) of
              Inl e \<Rightarrow> Inl e
            | Inr fs \<Rightarrow> Inr (ss @ fs)))
    \<and> (\<forall>cs. search_page page = Inr cs \<longrightarrow>
          (\<forall>c \<in> set cs. type_of c \<noteq> ''etf'' \<and> (type_of c = ''Stock'' \<or> type_of c = ''fund'')) \<and>
          (\<exists>c \<in> set cs. type_of c = ''fund''))"
proof -
  have eq: "search_page page =
      (case mapE stock_item (table_rows page stockTable) of
         Inl e \<Rightarrow> Inl e
       | Inr ss \<Rightarrow>
           (case mapE (fund_item ''fund'') (table_rows page fundTable) of
              Inl e \<Rightarrow> Inl e
            | Inr fs \<Rightarrow> Inr (ss @ fs)))"
    using assms(1) by (simp add: search_page_eq split: sum.splits)
  have "(\<forall>c \<in> set cs. type_of c \<noteq> ''etf'' \<and> (type_of c = ''Stock'' \<or> type_of c = ''fund'')) \<and>
        (\<exists>c \<in> set cs. type_of c = ''fund'')" if ok: "search_page page = Inr cs" for cs
  proof -
    from ok obtain ss fs where ss: "mapE stock_item (table_rows page stockTable) = Inr ss"
      and fs: "mapE (fund_item ''fund'') (table_rows page fundTable) = Inr fs"
      and cs: "cs = ss @ fs"
      unfolding eq by (auto split: sum.splits)
    have S: "type_of c = ''Stock''" if "c \<in> set ss" for c
      using list_all2_types [OF ss [unfolded mapE_Inr_iff] stock_item_type that] .
    have F: "type_of c = ''fund''" if "c \<in> set fs" for c
      using list_all2_types [OF fs [unfolded mapE_Inr_iff] fund_item_type that] .
    have "length fs = length (table_rows page fundTable)"
      using fs [unfolded mapE_Inr_iff] by (simp add: list_all2_lengthD)
    with assms(2) obtain f where "f \<in> set fs"
      by (cases fs) auto
    with S F cs show ?thesis by auto
  qed
  with eq show ?thesis by blast
qed

theorem search_fund_before_etf_witness:
  "table_present example_page fundTable \<and> table_rows example_page fundTable \<noteq> [] \<and>
   table_present example_page etfTable \<and> table_rows example_page etfTable \<noteq> [] \<and>
   search_page example_page = Inr [acme_item, fund_one_item] \<and>
   type_of acme_item = ''Stock'' \<and> type_of fund_one_item = ''fund''"
  using search_fund_before_etf [OF example_page_tables] example_page_tables search_example_page
  by (simp add: type_of_def acme_item_def fund_one_item_def)

text \<open>
  Claim C4 does not hold of the code: a row of the fund table gets the type \<open>fund\<close>, the
  loop variable, where the claim and the docstring of \<open>search\<close> say \<open>Fund\<close> (and a row
  of the ETF table gets \<open>etf\<close>, not \<open>ETF\<close>). The code on a page with one fund row:
\<close>

theorem search_fund_type_is_lowercase:
  "search_page fund_page =
     Inr [[(''name'', ''Fund One''), (''url'', ''http://www.morningstar.co.uk/uk/funds/f1''),
           (''type'', ''fund''), (''ISIN'', ''GB0001'')]]"
  by (simp add: fund_page_def page_defs)

text \<open>
  Claim C6 does not hold of the code. \<open>fix_url\<close>, whose docstring says
  \<open>Fully qualify url if domain missing\<close>, tests only for a leading slash: a link target
  that has no domain and does not begin with a slash, such as \<open>detail.aspx\<close>, is returned
  as it is, and the candidate's url has neither scheme nor host. The code on a page with
  one such stock row:
\<close>

theorem search_relative_link:
  "search_page relative_page =
     Inr [[(''name'', ''Acme Corp''), (''url'', ''detail.aspx''), (''type'', ''Stock''),
           (''ticker'', ''ACM''), (''currency'', ''USD'')]]
   \<and> \<not> is_absolute ''detail.aspx''"
  by (simp add: relative_page_def page_defs is_absolute_def url_defs)

text \<open>
  Claim C7. Whatever the order of the tables in the page, the candidates \<open>search\<close>
  returns are the candidates of the stock table's rows, in row order, followed by the
  candidates of the rows of one family table (fund or ETF), in row order; the former are
  of type \<open>Stock\<close>, the latter are not, so every stock candidate stands before every
  fund or ETF candidate. A page whose three tables have no rows after the header (or are
  absent) yields the empty list and no exception.
\<close>

theorem search_order:
  "(search_page page = Inr cs \<longrightarrow>
      (\<exists>ss fs. cs = ss @ fs \<and>
         list_all2 (\<lambda>row c. stock_item row = Inr c) (table_rows page stockTable) ss \<and>
         (list_all2 (\<lambda>row c. fund_item ''fund'' row = Inr c) (table_rows page fundTable) fs \<or>
          list_all2 (\<lambda>row c. fund_item ''etf'' row = Inr c) (table_rows page etfTable) fs) \<and>
         (\<forall>c \<in> set ss. type_of c = ''Stock'') \<and>
         (\<forall>c \<in> set fs. type_of c = ''fund'' \<or> type_of c = ''etf'')) \<and>
      (\<forall>i j. i < length cs \<and> j < length cs \<and> type_of (cs ! i) = ''Stock'' \<and>
             type_of (cs ! j) \<noteq> ''Stock'' \<longrightarrow> i < j))
   \<and> (table_rows page stockTable = [] \<and> table_rows page fundTable = [] \<and>
      table_rows page etfTable = [] \<longrightarrow> search_page page = Inr [])"
proof (intro conjI impI)
  assume ok: "search_page page = Inr cs"
  from search_page_decomp [OF ok] obtain ss fs where d: "cs = ss @ fs"
    "list_all2 (\<lambda>row c. stock_item row = Inr c) (table_rows page stockTable) ss"
    "list_all2 (\<lambda>row c. fund_item ''fund'' row = Inr c) (table_rows page fundTable) fs \<or>
     list_all2 (\<lambda>row c. fund_item ''etf'' row = Inr c) (table_rows page etfTable) fs"
    by blast
  have S: "type_of c = ''Stock''" if "c \<in> set ss" for c
    using list_all2_types [OF d(2) stock_item_type that] .
  have F: "type_of c = ''fund'' \<or> type_of c = ''etf''" if c: "c \<in> set fs" for c
    using d(3)
  proof
    assume "list_all2 (\<lambda>row c. fund_item ''fund'' row = Inr c) (table_rows page fundTable) fs"
    from list_all2_types [OF this fund_item_type c] show ?thesis by simp
  next
    assume "list_all2 (\<lambda>row c. fund_item ''etf'' row = Inr c) (table_rows page etfTable) fs"
    from list_all2_types [OF this fund_item_type c] show ?thesis by simp
  qed
  show "\<exists>ss fs. cs = ss @ fs \<and>
         list_all2 (\<lambda>row c. stock_item row = Inr c) (table_rows page stockTable) ss \<and>
         (list_all2 (\<lambda>row c. fund_item ''fund'' row = Inr c) (table_rows page fundTable) fs \<or>
          list_all2 (\<lambda>row c. fund_item ''etf'' row = Inr c) (table_rows page etfTable) fs) \<and>
         (\<forall>c \<in> set ss. type_of c = ''Stock'') \<and>
         (\<forall>c \<in> set fs. type_of c = ''fund'' \<or> type_of c = ''etf'')"
    using d S F by blast
  show "\<forall>i j. i < length cs \<and> j < length cs \<and> type_of (cs ! i) = ''Stock'' \<and>
             type_of (cs ! j) \<noteq> ''Stock'' \<longrightarrow> i < j"
  proof (intro allI impI)
    fix i j
    assume a: "i < length cs \<and> j < length cs \<and> type_of (cs ! i) = ''Stock'' \<and>
             type_of (cs ! j) \<noteq> ''Stock''"
    have "i < length ss"
    proof (rule ccontr)
      assume n: "\<not> i < length ss"
      from a have i: "i < length cs" and ti: "type_of (cs ! i) = ''Stock''"
        by simp_all
      from n i d(1) have "i - length ss < length fs"
        by simp
      then have "fs ! (i - length ss) \<in> set fs"
        by (rule nth_mem)
      moreover from n d(1) have "cs ! i = fs ! (i - length ss)"
        by (simp add: nth_append)
      ultimately have "cs ! i \<in> set fs"
        by simp
      from F [OF this] ti show False by auto
    qed
    moreover have "\<not> j < length ss"
    proof
      assume "j < length ss"
      with d(1) have "cs ! j \<in> set ss"
        by (simp add: nth_append)
      from S [OF this] a show False by simp
    qed
    ultimately show "i < j" by simp
  qed
next
  assume "table_rows page stockTable = [] \<and> table_rows page fundTable = [] \<and>
      table_rows page etfTable = []"
  then show "search_page page = Inr []"
    by (simp add: search_page_eq)
qed

theorem search_order_witness:
  "search_page example_page = Inr [acme_item, fund_one_item] \<and>
   type_of ([acme_item, fund_one_item] ! 0) = ''Stock'' \<and>
   type_of ([acme_item, fund_one_item] ! 1) \<noteq> ''Stock'' \<and> (0::nat) < 1 \<and>
   table_rows (Tag ''[document]'' [] []) stockTable = [] \<and>
   table_rows (Tag ''[document]'' [] []) fundTable = [] \<and>
   table_rows (Tag ''[document]'' [] []) etfTable = [] \<and>
   search_page (Tag ''[document]'' [] []) = Inr []"
proof -
  have e: "table_rows (Tag ''[document]'' [] []) stockTable = [] \<and>
      table_rows (Tag ''[document]'' [] []) fundTable = [] \<and>
      table_rows (Tag ''[document]'' [] []) etfTable = []"
    by (simp add: page_defs)
  have t: "type_of ([acme_item, fund_one_item] ! 0) = ''Stock'' \<and>
      type_of ([acme_item, fund_one_item] ! 1) \<noteq> ''Stock''"
    by (simp add: type_of_def acme_item_def fund_one_item_def)
  from search_order [of "Tag ''[document]'' [] []" "[]"] e
  have "search_page (Tag ''[document]'' [] []) = Inr []" by blast
  with e t search_example_page show ?thesis by simp
qed

subsection \<open>\<open>get_url\<close>\<close>

text \<open>
  Claim C1. When the network location \<open>urlsplit\<close> finds in the url does not end with
  \<open>morningstar.co.uk\<close>, \<open>get_url\<close> raises the exception for a foreign url and leaves the
  world as it was, whatever the collaborators are: no page has been fetched. When it
  does end with the site domain, \<open>get_url\<close> is the call of the detail-page extractor on
  the url. A url of host \<open>evil.com\<close> is refused. (Where \<open>urlsplit\<close> itself raises,
  on unbalanced brackets after \<open>//\<close>, there is no network location to test;
  \<open>get_url\<close> then raises that exception, also with the world as it was.)
\<close>

theorem get_url_domain_check:
  "(urlsplit url = Inr parts \<and> \<not> endswith (netloc parts) SITE \<longrightarrow>
      get_url ext url w = (Inl (DomainError url), w))
   \<and> (urlsplit url = Inr parts \<and> endswith (netloc parts) SITE \<longrightarrow>
      get_url ext url w = security_page ext url w)
   \<and> get_url ext ''http://evil.com/x'' w = (Inl (DomainError ''http://evil.com/x''), w)
   \<and> (urlsplit url = Inl e \<longrightarrow> get_url ext url w = (Inl e, w))"
proof -
  have "get_url ext ''http://evil.com/x'' w = (Inl (DomainError ''http://evil.com/x''), w)"
    by (simp add: get_url_def url_defs endswith_def SITE_def)
  then show ?thesis
    by (simp add: get_url_def)
qed

theorem get_url_domain_check_witness:
  "urlsplit ''http://www.morningstar.co.uk/stock/1'' = Inr stock_1_parts \<and>
   endswith (netloc stock_1_parts) SITE \<and>
   get_url example_ext ''http://www.morningstar.co.uk/stock/1'' [] =
     (Inr (PyDict [(''url'', ''http://www.morningstar.co.uk/stock/1'')]),
      [''http://www.morningstar.co.uk/stock/1''])
   \<and> get_url example_ext ''http://evil.com/x'' [] = (Inl (DomainError ''http://evil.com/x''), [])"
proof -
  have e: "endswith (netloc stock_1_parts) SITE"
    by (simp add: stock_1_parts_def endswith_def SITE_def)
  have s: "security_page example_ext ''http://www.morningstar.co.uk/stock/1'' [] =
     (Inr (PyDict [(''url'', ''http://www.morningstar.co.uk/stock/1'')]),
      [''http://www.morningstar.co.uk/stock/1''])"
    by (simp add: security_page_def example_ext_def)
  from get_url_domain_check [of "''http://www.morningstar.co.uk/stock/1''" stock_1_parts
      example_ext "[]"] urlsplit_stock_1 e s
  show ?thesis by simp
qed

text \<open>
  Claim C10. A url in which \<open>urlsplit\<close> finds no network location, such as a
  site-relative path or the empty string, is refused by \<open>get_url\<close> with the exception for
  a foreign url, and the world is left as it was: the empty network location does not
  end with the site domain.
\<close>

theorem get_url_without_host:
  "(urlsplit url = Inr parts \<and> netloc parts = [] \<longrightarrow>
      get_url ext url w = (Inl (DomainError url), w))
   \<and> get_url ext ''/uk/funds/x'' w = (Inl (DomainError ''/uk/funds/x''), w)
   \<and> get_url ext '''' w = (Inl (DomainError ''''), w)"
proof -
  have "get_url ext ''/uk/funds/x'' w = (Inl (DomainError ''/uk/funds/x''), w)"
    by (simp add: get_url_def url_defs endswith_def SITE_def)
  moreover have "get_url ext '''' w = (Inl (DomainError ''''), w)"
    by (simp add: get_url_def url_defs endswith_def SITE_def)
  ultimately show ?thesis
    by (simp add: get_url_def endswith_def SITE_def)
qed

theorem get_url_without_host_witness:
  "urlsplit ''/stock/1'' = Inr relative_parts \<and> netloc relative_parts = [] \<and>
   get_url example_ext ''/stock/1'' [] = (Inl (DomainError ''/stock/1''), [])"
proof -
  have n: "netloc relative_parts = []"
    by (simp add: relative_parts_def)
  from get_url_without_host [of "''/stock/1''" relative_parts example_ext "[]"]
    urlsplit_relative n
  show ?thesis by simp
qed

subsection \<open>\<open>get_data\<close>\<close>

text \<open>
  Claim C3. \<open>get_data\<close> resolves the urls of the candidates \<open>search\<close> returns one after
  the other, in their order, and returns the results that are records (true values), in
  that order; a result that is an absence (\<open>None\<close>, or an empty dictionary) is left out
  and the remaining candidates are still resolved. Only an exception ends the loop.
\<close>

theorem get_data_spec:
  "get_data ext ref w =
     (case search ext ref w of
        (Inl e, w1) \<Rightarrow> (Inl e, w1)
      | (Inr cands, w1) \<Rightarrow>
          (case resolve_each ext (map url_of cands) w1 of
             (Inl e, w2) \<Rightarrow> (Inl e, w2)
           | (Inr ds, w2) \<Rightarrow> (Inr (filter truthy ds), w2)))"
proof (cases "search ext ref w")
  case (Pair r w1)
  show ?thesis
  proof (cases r)
    case (Inl e)
    with Pair show ?thesis by (simp add: get_data_def)
  next
    case (Inr cands)
    with Pair have "\<forall>c \<in> set cands. map_of c ''url'' \<noteq> None"
      using search_page_has_url
      by (fastforce simp: search_def split: prod.splits sum.splits)
    from get_data_loop_eq [OF this, of ext "[]" w1] Pair Inr show ?thesis
      by (simp add: get_data_def split: prod.splits sum.splits)
  qed
qed

theorem get_data_spec_witness:
  "get_data example_ext ''ACM'' [] =
     (Inr [PyDict [(''url'', ''http://www.morningstar.co.uk/stock/1'')],
           PyDict [(''url'', ''http://www.morningstar.co.uk/stock/3'')]],
      [''http://www.morningstar.co.uk/uk/funds/SecuritySearchResults.aspx?search=ACM'',
       ''http://www.morningstar.co.uk/stock/1'', ''http://www.morningstar.co.uk/stock/2'',
       ''http://www.morningstar.co.uk/stock/3''])"
  using get_data_spec [of example_ext "''ACM''" "[]"]
  by (simp add: search_def example_ext_def three_page_def page_defs SEARCH_BASE_def
      url_of_def get_url_def security_page_def url_defs endswith_def)

end
